theory Spec2Isabelle
  imports Complex_Main "HOL-Library.AList" "HOL-Library.Log_Nat"
begin

section \<open>Values of the program\<close>

text \<open>
  A Python float is an IEEE 754 double: a finite value, an infinity or NaN. A finite
  double is written as the real number it denotes, and every arithmetic operation on
  finite values rounds its exact result to the nearest double (ties to the even
  significand) and overflows to an infinity, as the hardware does. Signed zeros are not
  distinguished; no operation of the program tells them apart.
\<close>

datatype pyfloat = Fin real | PInf | NInf | NaN

text \<open>The power of two with an integer exponent.\<close>

definition pow2 :: "int \<Rightarrow> real" where
  "pow2 e = (if 0 \<le> e then 2 ^ nat e else 1 / 2 ^ nat (- e))"

text \<open>
  The binary exponent of a nonzero real: the \<open>e\<close> with \<open>2^e \<le> |x| < 2^(e+1)\<close>,
  computed from the bit length of the integer part of \<open>|x|\<close>, or of \<open>1 / |x|\<close> when
  \<open>|x| < 1\<close>.
\<close>

definition exponent :: "real \<Rightarrow> int" where
  "exponent x =
     (if 1 \<le> \<bar>x\<bar> then bitlen \<lfloor>\<bar>x\<bar>\<rfloor> - 1 else - bitlen (\<lceil>1 / \<bar>x\<bar>\<rceil> - 1))"

text \<open>Rounding to the nearest integer, a tie going to the even one.\<close>

definition round_half_even :: "real \<Rightarrow> int" where
  "round_half_even x =
     (let f = \<lfloor>x\<rfloor>; d = x - of_int f
      in if d < 1 / 2 then f else if 1 / 2 < d then f + 1 else if even f then f else f + 1)"

text \<open>
  Rounding a real to binary64. The significand has 53 bits, so the spacing of the doubles
  around \<open>x\<close> is \<open>2^(e - 52)\<close> for the exponent \<open>e\<close> of \<open>x\<close>, and \<open>2^(-1074)\<close>
  below the smallest normal number \<open>2^(-1022)\<close>. A rounded value of magnitude
  \<open>2^1024\<close> or more is an infinity.
\<close>

definition round_double :: "real \<Rightarrow> pyfloat" where
  "round_double x =
     (if x = 0 then Fin 0
      else
        let q = max (exponent x) (- 1022) - 52;
            y = of_int (round_half_even (x / pow2 q)) * pow2 q
        in if 2 ^ 1024 \<le> \<bar>y\<bar> then (if 0 < x then PInf else NInf) else Fin y)"

fun isfinite :: "pyfloat \<Rightarrow> bool" where
  "isfinite (Fin r) = True"
| "isfinite PInf = False"
| "isfinite NInf = False"
| "isfinite NaN = False"

text \<open>\<open>a < b\<close> on floats: exact, and false whenever an operand is NaN.\<close>

fun fl_lt :: "pyfloat \<Rightarrow> pyfloat \<Rightarrow> bool" where
  "fl_lt (Fin a) (Fin b) = (a < b)"
| "fl_lt (Fin a) PInf = True"
| "fl_lt (Fin a) NInf = False"
| "fl_lt (Fin a) NaN = False"
| "fl_lt PInf b = False"
| "fl_lt NInf (Fin b) = True"
| "fl_lt NInf PInf = True"
| "fl_lt NInf NInf = False"
| "fl_lt NInf NaN = False"
| "fl_lt NaN b = False"

text \<open>\<open>a > b\<close> on floats.\<close>

definition fl_gt :: "pyfloat \<Rightarrow> pyfloat \<Rightarrow> bool" where
  "fl_gt a b = fl_lt b a"

text \<open>\<open>a + b\<close> on floats: the rounded sum; opposite infinities give NaN.\<close>

fun fl_add :: "pyfloat \<Rightarrow> pyfloat \<Rightarrow> pyfloat" where
  "fl_add (Fin a) (Fin b) = round_double (a + b)"
| "fl_add (Fin a) PInf = PInf"
| "fl_add (Fin a) NInf = NInf"
| "fl_add (Fin a) NaN = NaN"
| "fl_add PInf (Fin b) = PInf"
| "fl_add PInf PInf = PInf"
| "fl_add PInf NInf = NaN"
| "fl_add PInf NaN = NaN"
| "fl_add NInf (Fin b) = NInf"
| "fl_add NInf PInf = NaN"
| "fl_add NInf NInf = NInf"
| "fl_add NInf NaN = NaN"
| "fl_add NaN b = NaN"

text \<open>\<open>a - b\<close> on floats: the rounded difference; equal infinities give NaN.\<close>

fun fl_sub :: "pyfloat \<Rightarrow> pyfloat \<Rightarrow> pyfloat" where
  "fl_sub (Fin a) (Fin b) = round_double (a - b)"
| "fl_sub (Fin a) PInf = NInf"
| "fl_sub (Fin a) NInf = PInf"
| "fl_sub (Fin a) NaN = NaN"
| "fl_sub PInf (Fin b) = PInf"
| "fl_sub PInf PInf = NaN"
| "fl_sub PInf NInf = PInf"
| "fl_sub PInf NaN = NaN"
| "fl_sub NInf (Fin b) = NInf"
| "fl_sub NInf PInf = NInf"
| "fl_sub NInf NInf = NaN"
| "fl_sub NInf NaN = NaN"
| "fl_sub NaN b = NaN"

text \<open>
  \<open>a * b\<close> on floats: the rounded product; NaN is absorbing, and zero times an infinity
  is NaN.
\<close>

fun fl_mul :: "pyfloat \<Rightarrow> pyfloat \<Rightarrow> pyfloat" where
  "fl_mul (Fin a) (Fin b) = round_double (a * b)"
| "fl_mul (Fin a) PInf = (if a = 0 then NaN else if 0 < a then PInf else NInf)"
| "fl_mul (Fin a) NInf = (if a = 0 then NaN else if 0 < a then NInf else PInf)"
| "fl_mul (Fin a) NaN = NaN"
| "fl_mul PInf (Fin b) = (if b = 0 then NaN else if 0 < b then PInf else NInf)"
| "fl_mul PInf PInf = PInf"
| "fl_mul PInf NInf = NInf"
| "fl_mul PInf NaN = NaN"
| "fl_mul NInf (Fin b) = (if b = 0 then NaN else if 0 < b then NInf else PInf)"
| "fl_mul NInf PInf = NInf"
| "fl_mul NInf NInf = PInf"
| "fl_mul NInf NaN = NaN"
| "fl_mul NaN b = NaN"

text \<open>
  A decimal literal of the source, such as \<open>1.05\<close>, denotes the double nearest to it.
\<close>

definition float_literal :: "real \<Rightarrow> pyfloat" where
  "float_literal r = round_double r"

text \<open>The exceptions the modelled code can raise.\<close>

datatype error =
    KeyError string
  | ValueError
  | TypeError
  | IndexError
  | UpstreamError string

section \<open>The price table\<close>

text \<open>
  A pandas DataFrame: the row index (the timestamps) and the columns in their order, each
  a name with its values. \<open>len(data)\<close> is the number of rows.
\<close>

record frame =
  index :: "nat list"
  columns :: "(string \<times> pyfloat list) list"

definition len :: "frame \<Rightarrow> nat" where
  "len data = length (index data)"

text \<open>\<open>data[name]\<close>: the values of a column, KeyError when there is no such column.\<close>

definition getitem :: "frame \<Rightarrow> string \<Rightarrow> error + pyfloat list" where
  "getitem data name =
     (case map_of (columns data) name of
        None \<Rightarrow> Inl (KeyError name)
      | Some vs \<Rightarrow> Inr vs)"

text \<open>
  \<open>data[name] = values\<close>: an existing column is overwritten where it stands, a new one
  is appended. The table itself is changed, so the model returns the new table.
\<close>

definition setitem :: "frame \<Rightarrow> string \<Rightarrow> pyfloat list \<Rightarrow> frame" where
  "setitem data name vs = data\<lparr>columns := AList.update name vs (columns data)\<rparr>"

text \<open>
  \<open>np.arange(a, b)\<close>: the integers from \<open>a\<close> up to \<open>b - 1\<close>. They are small
  enough to be doubles as they stand (a table has fewer than \<open>2^53\<close> rows).
\<close>

definition arange :: "int \<Rightarrow> int \<Rightarrow> pyfloat list" where
  "arange a b = map (\<lambda>i. Fin (of_int i)) [a..b - 1]"

section \<open>The linear model\<close>

text \<open>
  \<open>sklearn.linear_model.LinearRegression\<close> with one feature, as its \<open>fit\<close> and
  \<open>predict\<close> proceed in double arithmetic:
  \<^item> both arrays are validated: a NaN or an infinity, no sample, or arrays of different
    lengths raise ValueError;
  \<^item> the feature and the target are centred on their means (\<open>np.average\<close>: the sum of
    the elements, divided by their number);
  \<^item> the slope is what \<open>scipy.linalg.lstsq\<close> returns for the centred data, after it
    has checked them: an infinity or a NaN among them raises ValueError;
  \<^item> the intercept is \<open>mean y - mean x * slope\<close>, and a prediction is
    \<open>x * slope + intercept\<close>.

  The solver is LAPACK's, not code of this repository, and the doubles it returns depend
  on the order of its operations. It is the parameter \<open>lstsq\<close> of the model: a function
  from the centred feature and target to the slope. The sum is taken from left to right;
  numpy adds longer arrays in blocks, which gives the same result whenever the partial
  sums are exact.
\<close>

record linear_regression =
  coef :: pyfloat
  intercept :: pyfloat

fun check_array :: "pyfloat list \<Rightarrow> error + real list" where
  "check_array [] = Inr []"
| "check_array (Fin r # vs) =
     (case check_array vs of Inl e \<Rightarrow> Inl e | Inr rs \<Rightarrow> Inr (r # rs))"
| "check_array (PInf # vs) = Inl ValueError"
| "check_array (NInf # vs) = Inl ValueError"
| "check_array (NaN # vs) = Inl ValueError"

definition np_sum :: "real list \<Rightarrow> pyfloat" where
  "np_sum xs = foldl fl_add (Fin 0) (map Fin xs)"

definition np_mean :: "real list \<Rightarrow> pyfloat" where
  "np_mean xs =
     (case np_sum xs of
        Fin s \<Rightarrow> round_double (s / real (length xs))
      | PInf \<Rightarrow> PInf
      | NInf \<Rightarrow> NInf
      | NaN \<Rightarrow> NaN)"

definition fit ::
  "(real list \<Rightarrow> real list \<Rightarrow> pyfloat) \<Rightarrow> pyfloat list \<Rightarrow> pyfloat list
     \<Rightarrow> error + linear_regression" where
  "fit lstsq X y =
     (case check_array X of
        Inl e \<Rightarrow> Inl e
      | Inr xs \<Rightarrow>
          (case check_array y of
             Inl e \<Rightarrow> Inl e
           | Inr ys \<Rightarrow>
               if xs = [] \<or> length xs \<noteq> length ys then Inl ValueError
               else
                 let x_offset = np_mean xs;
                     y_offset = np_mean ys;
                     xc = map (\<lambda>x. fl_sub (Fin x) x_offset) xs;
                     yc = map (\<lambda>y. fl_sub (Fin y) y_offset) ys
                 in (case check_array xc of
                       Inl e \<Rightarrow> Inl e
                     | Inr xc' \<Rightarrow>
                         (case check_array yc of
                            Inl e \<Rightarrow> Inl e
                          | Inr yc' \<Rightarrow>
                              let w = lstsq xc' yc'
                              in Inr \<lparr>coef = w,
                                      intercept = fl_sub y_offset (fl_mul x_offset w)\<rparr>))))"

definition predict :: "linear_regression \<Rightarrow> pyfloat list \<Rightarrow> error + pyfloat list" where
  "predict model X =
     (case check_array X of
        Inl e \<Rightarrow> Inl e
      | Inr xs \<Rightarrow>
          if xs = [] then Inl ValueError
          else Inr (map (\<lambda>x. fl_add (fl_mul (Fin x) (coef model)) (intercept model)) xs))"

text \<open>
  A solver to apply the theorems to: the least-squares slope of the centred data, computed
  exactly and rounded once. It stands for no library.
\<close>

definition rounded_lstsq :: "real list \<Rightarrow> real list \<Rightarrow> pyfloat" where
  "rounded_lstsq xc yc =
     (let sxx = sum_list (map (\<lambda>x. x * x) xc);
          sxy = sum_list (map2 (\<lambda>x y. x * y) xc yc)
      in if sxx = 0 then Fin 0 else round_double (sxy / sxx))"



section \<open>Trend extrapolation\<close>

text \<open>
  \<open>predict_price_movement(data, days)\<close>. The call returns the table as it leaves it
  (line 42 writes the column \<open>Days\<close> into the caller's table) together with either the
  exception raised or the returned pair; \<open>None\<close> in the pair is Python's \<open>None\<close>.
\<close>

definition predict_price_movement ::
  "(real list \<Rightarrow> real list \<Rightarrow> pyfloat) \<Rightarrow> frame \<Rightarrow> int
     \<Rightarrow> frame \<times> (error + pyfloat option \<times> pyfloat option)" where
  "predict_price_movement lstsq data days =
     (if len data < 2 then (data, Inr (None, None))
      else
        let data' = setitem data ''Days'' (arange 0 (int (len data))) in
        (data',
         case getitem data' ''Days'' of
           Inl e \<Rightarrow> Inl e
         | Inr X \<Rightarrow>
             (case getitem data' ''Close'' of
                Inl e \<Rightarrow> Inl e
              | Inr y \<Rightarrow>
                  (case fit lstsq X y of
                     Inl e \<Rightarrow> Inl e
                   | Inr model \<Rightarrow>
                       let future_days =
                             arange (int (len data')) (int (len data') + days)
                       in (case predict model future_days of
                             Inl e \<Rightarrow> Inl e
                           | Inr predictions \<Rightarrow>
                               if y = [] then Inl IndexError
                               else Inr (Some (last y), Some (last predictions)))))))"

section \<open>Recommendation\<close>

datatype category = BUY_CALL | BUY_PUT | HOLD

text \<open>
  What the page shows. \<open>Success c current predicted\<close> is \<open>st.success\<close> with the
  recommendation text of category \<open>c\<close>, which quotes both prices; \<open>Info c predicted\<close>
  is \<open>st.info\<close> with the text of \<open>c\<close>, which quotes the predicted price;
  \<open>ErrorExc msg e\<close> is \<open>st.error\<close> of a message that quotes a caught exception.
\<close>

datatype ui_event =
    Subheader string
  | Write string
  | Selectbox string "string list"
  | Dataframe frame
  | Error string
  | ErrorExc string error
  | Success category pyfloat pyfloat
  | Info category pyfloat

fun category_of :: "ui_event \<Rightarrow> category option" where
  "category_of (Success c current predicted) = Some c"
| "category_of (Info c predicted) = Some c"
| "category_of ev = None"

text \<open>
  Lines 86 to 100, the branch that chooses the recommendation. The products are double
  products of the current price with the doubles that the literals \<open>1.05\<close> and
  \<open>0.95\<close> denote. A price that is \<open>None\<close> makes the first comparison raise TypeError.
\<close>

definition recommend :: "pyfloat option \<Rightarrow> pyfloat option \<Rightarrow> error + ui_event" where
  "recommend predicted_price current_price =
     (case current_price of
        None \<Rightarrow> Inl TypeError
      | Some c \<Rightarrow>
          (case predicted_price of
             None \<Rightarrow> Inl TypeError
           | Some p \<Rightarrow>
               Inr (if fl_gt p (fl_mul c (float_literal 1.05)) then Success BUY_CALL c p
                    else if fl_lt p (fl_mul c (float_literal 0.95)) then Success BUY_PUT c p
                    else Info HOLD p)))"

text \<open>
  The category a call of \<open>recommend\<close> puts on the page, \<open>None\<close> when the call
  raises.
\<close>

definition recommended :: "pyfloat option \<Rightarrow> pyfloat option \<Rightarrow> category option" where
  "recommended predicted_price current_price =
     (case recommend predicted_price current_price of
        Inl e \<Rightarrow> None
      | Inr ev \<Rightarrow> category_of ev)"

text \<open>
  The instrument as the options collaborator presents it: the expiry dates (or the
  exception of the request) and the option chain of an expiry, a table of calls and one
  of puts.
\<close>

record stock =
  options :: "error + string list"
  option_chain :: "string \<Rightarrow> error + frame \<times> frame"

text \<open>
  \<open>analyze_options(stock, predicted_price, current_price)\<close>: the events it puts on the
  page. The function returns nothing, and every exception inside is caught and shown.
  \<open>selectbox\<close> is the user's choice among the expiry dates.
\<close>

definition analyze_options ::
  "(string list \<Rightarrow> string) \<Rightarrow> stock \<Rightarrow> pyfloat option \<Rightarrow> pyfloat option \<Rightarrow> ui_event list" where
  "analyze_options selectbox stock predicted_price current_price =
     Subheader ''Options Recommendations'' #
     (case options stock of
        Inl e \<Rightarrow> [ErrorExc ''Error analyzing options'' e]
      | Inr expiry_dates \<Rightarrow>
          if expiry_dates = [] then [Error ''No options data available for this stock.'']
          else
            let expiry = selectbox expiry_dates in
            Selectbox ''Select Expiry Date'' expiry_dates #
            (case option_chain stock expiry of
               Inl e \<Rightarrow> [ErrorExc ''Error analyzing options'' e]
             | Inr (calls, puts) \<Rightarrow>
                 [Write ''Call Options'', Dataframe calls,
                  Write ''Put Options'', Dataframe puts] @
                 (case recommend predicted_price current_price of
                    Inl e \<Rightarrow> [ErrorExc ''Error analyzing options'' e]
                  | Inr ev \<Rightarrow> [ev])))"

section \<open>Facts about the arithmetic, the table and the model\<close>

subsection \<open>Powers of two and the exponent\<close>

lemma pow2_powr: "pow2 e = 2 powr real_of_int e"
  by (simp add: pow2_def powr_real_of_int divide_inverse)

lemma pow2_pos [simp]: "0 < pow2 e"
  by (simp add: pow2_powr)

lemma pow2_add: "pow2 (a + b) = pow2 a * pow2 b"
  by (simp add: pow2_powr powr_add)

lemma pow2_minus: "pow2 (- e) = 1 / pow2 e"
  by (simp add: pow2_powr powr_minus divide_inverse)

lemma pow2_le_iff [simp]: "pow2 a \<le> pow2 b \<longleftrightarrow> a \<le> b"
  by (simp add: pow2_powr)

lemma pow2_less_iff [simp]: "pow2 a < pow2 b \<longleftrightarrow> a < b"
  by (simp add: pow2_powr)

lemma exponent_bounds:
  assumes "x \<noteq> 0"
  shows "pow2 (exponent x) \<le> \<bar>x\<bar> \<and> \<bar>x\<bar> < pow2 (exponent x + 1)"
proof (cases "1 \<le> \<bar>x\<bar>")
  case True
  let ?k = "\<lfloor>\<bar>x\<bar>\<rfloor>"
  have k: "0 < ?k" using True by simp
  have e: "exponent x = bitlen ?k - 1" using True by (simp add: exponent_def)
  have bl: "0 < bitlen ?k" using k bitlen_bounds [of ?k] bitlen_nonneg [of ?k]
    by (metis bitlen_eq_zero_iff le_less not_less)
  from bitlen_bounds [OF k] have lo: "2 ^ nat (bitlen ?k - 1) \<le> ?k" and hi: "?k < 2 ^ nat (bitlen ?k)"
    by auto
  have "pow2 (bitlen ?k - 1) = of_int (2 ^ nat (bitlen ?k - 1))"
    using bl by (simp add: pow2_def)
  also have "\<dots> \<le> of_int ?k" using lo by (simp only: of_int_le_iff)
  also have "\<dots> \<le> \<bar>x\<bar>" by simp
  finally have 1: "pow2 (exponent x) \<le> \<bar>x\<bar>" by (simp add: e)
  have "?k + 1 \<le> 2 ^ nat (bitlen ?k)" using hi by simp
  then have le: "real_of_int (?k + 1) \<le> of_int (2 ^ nat (bitlen ?k))" by (simp only: of_int_le_iff)
  have "\<bar>x\<bar> < of_int (?k + 1)" by linarith
  also note le
  also have "of_int (2 ^ nat (bitlen ?k)) = pow2 (bitlen ?k)" using bl by (simp add: pow2_def)
  finally have 2: "\<bar>x\<bar> < pow2 (exponent x + 1)" by (simp add: e)
  from 1 2 show ?thesis ..
next
  case False
  let ?a = "\<bar>x\<bar>"
  let ?y = "1 / ?a"
  let ?k = "\<lceil>?y\<rceil> - 1"
  have a: "0 < ?a" "?a < 1" using assms False by auto
  have y: "1 < ?y" using a by simp
  then have k: "0 < ?k" by linarith
  have e: "exponent x = - bitlen ?k" using False by (simp add: exponent_def)
  have bl: "0 < bitlen ?k" using k bitlen_nonneg [of ?k]
    by (metis bitlen_eq_zero_iff le_less not_less)
  from bitlen_bounds [OF k] have lo: "2 ^ nat (bitlen ?k - 1) \<le> ?k" and hi: "?k < 2 ^ nat (bitlen ?k)"
    by auto
  have ky: "of_int ?k < ?y" "?y \<le> of_int (?k + 1)" by linarith+
  have "?k + 1 \<le> 2 ^ nat (bitlen ?k)" using hi by simp
  then have "real_of_int (?k + 1) \<le> of_int (2 ^ nat (bitlen ?k))" by (simp only: of_int_le_iff)
  with ky(2) have "?y \<le> of_int (2 ^ nat (bitlen ?k))" by linarith
  then have "?y \<le> 2 ^ nat (bitlen ?k)" by (simp only: of_int_power of_int_numeral)
  then have "1 \<le> 2 ^ nat (bitlen ?k) * ?a" using a(1) by (simp add: field_simps)
  then have 1: "pow2 (exponent x) \<le> ?a"
    using bl by (simp add: e pow2_def field_simps)
  have "real_of_int (2 ^ nat (bitlen ?k - 1)) \<le> of_int ?k" using lo by (simp only: of_int_le_iff)
  with ky(1) have "of_int (2 ^ nat (bitlen ?k - 1)) < ?y" by linarith
  then have "2 ^ nat (bitlen ?k - 1) < ?y" by (simp only: of_int_power of_int_numeral)
  then have lt: "2 ^ nat (bitlen ?k - 1) * ?a < 1" using a(1) by (simp add: field_simps)
  have 2: "?a < pow2 (exponent x + 1)"
  proof (cases "bitlen ?k = 1")
    case True
    then show ?thesis using a by (simp add: e pow2_def)
  next
    case False
    then have "1 < bitlen ?k" using bl by simp
    then have p: "pow2 (exponent x + 1) = 1 / 2 ^ nat (bitlen ?k - 1)"
      by (simp add: e pow2_def)
    have "?a < 1 / 2 ^ nat (bitlen ?k - 1)"
      using lt by (simp add: field_simps)
    then show ?thesis by (simp only: p)
  qed
  from 1 2 show ?thesis ..
qed

lemma exponent_eqI:
  assumes "pow2 e \<le> \<bar>x\<bar>" and "\<bar>x\<bar> < pow2 (e + 1)"
  shows "exponent x = e"
proof -
  have "0 < \<bar>x\<bar>" using assms(1) pow2_pos [of e] by linarith
  then have x: "x \<noteq> 0" by simp
  from exponent_bounds [OF x] have b: "pow2 (exponent x) \<le> \<bar>x\<bar>" "\<bar>x\<bar> < pow2 (exponent x + 1)"
    by auto
  have "pow2 e < pow2 (exponent x + 1)" using assms(1) b(2) by linarith
  moreover have "pow2 (exponent x) < pow2 (e + 1)" using assms(2) b(1) by linarith
  ultimately show ?thesis by simp
qed

subsection \<open>Rounding to a double\<close>

lemma round_half_even_int [simp]: "round_half_even (of_int m) = m"
  by (simp add: round_half_even_def)

lemma round_double_0 [simp]: "round_double 0 = Fin 0"
  by (simp add: round_double_def)

lemma round_double_eval:
  assumes "pow2 e \<le> \<bar>x\<bar>" and "\<bar>x\<bar> < pow2 (e + 1)"
  shows "round_double x =
     (let q = max e (- 1022) - 52;
          y = of_int (round_half_even (x / pow2 q)) * pow2 q
      in if 2 ^ 1024 \<le> \<bar>y\<bar> then (if 0 < x then PInf else NInf) else Fin y)"
proof -
  have "0 < \<bar>x\<bar>" using assms(1) pow2_pos [of e] by linarith
  then have x: "x \<noteq> 0" by simp
  show ?thesis using x by (simp add: round_double_def exponent_eqI [OF assms])
qed

lemma round_double_exact:
  assumes "pow2 e \<le> \<bar>x\<bar>" and "\<bar>x\<bar> < pow2 (e + 1)" and "e < 1024"
    and "x / pow2 (max e (- 1022) - 52) = of_int m"
  shows "round_double x = Fin x"
proof -
  have "pow2 (e + 1) \<le> pow2 1024" using assms(3) by simp
  then have "\<bar>x\<bar> < 2 ^ 1024" using assms(2) by (simp add: pow2_def)
  moreover have "of_int m * pow2 (max e (- 1022) - 52) = x"
    using assms(4) pow2_pos [of "max e (- 1022) - 52"] by (simp add: field_simps)
  ultimately show ?thesis
    unfolding round_double_eval [OF assms(1,2)] Let_def assms(4) by simp
qed

text \<open>Halves of integers below \<open>2^53\<close> in magnitude are doubles.\<close>

lemma round_double_half_int:
  assumes "\<bar>i\<bar> < 2 ^ 53"
  shows "round_double (of_int i / 2) = Fin (of_int i / 2)"
proof (cases "i = 0")
  case True
  then show ?thesis by simp
next
  case False
  let ?x = "real_of_int i / 2"
  let ?e = "exponent ?x"
  have x: "?x \<noteq> 0" using False by simp
  from exponent_bounds [OF x] have b: "pow2 ?e \<le> \<bar>?x\<bar>" "\<bar>?x\<bar> < pow2 (?e + 1)"
    by auto
  have "1 \<le> \<bar>i\<bar>" using False by simp
  then have "1 \<le> \<bar>real_of_int i\<bar>" by (metis of_int_1_le_iff of_int_abs)
  then have "pow2 (- 1) \<le> \<bar>?x\<bar>" by (simp add: pow2_def)
  with b(2) have "pow2 (- 1) < pow2 (?e + 1)" by linarith
  then have lo: "- 1 \<le> ?e" by simp
  have "real_of_int \<bar>i\<bar> < of_int (2 ^ 53)" using assms by (simp only: of_int_less_iff)
  then have "\<bar>?x\<bar> < pow2 52" by (simp add: pow2_def)
  with b(1) have "pow2 ?e < pow2 52" by linarith
  then have hi: "?e < 52" by simp
  have m: "max ?e (- 1022) = ?e" using lo by simp
  have "1 / pow2 (?e - 52) = pow2 (- (?e - 52))" by (simp only: pow2_minus)
  also have "- (?e - 52) = 1 + (51 - ?e)" by simp
  also have "pow2 (1 + (51 - ?e)) = pow2 1 * pow2 (51 - ?e)" by (rule pow2_add)
  also have "pow2 1 = 2" by (simp add: pow2_def)
  finally have r: "1 / pow2 (?e - 52) = 2 * pow2 (51 - ?e)" .
  have "?x / pow2 (?e - 52) = of_int i / 2 * (1 / pow2 (?e - 52))" by simp
  also have "\<dots> = of_int i * pow2 (51 - ?e)" by (simp only: r)
  also have "pow2 (51 - ?e) = of_int (2 ^ nat (51 - ?e))"
    using hi by (simp add: pow2_def)
  finally have "?x / pow2 (max ?e (- 1022) - 52) = of_int (i * 2 ^ nat (51 - ?e))"
    by (simp add: m)
  moreover have "?e < 1024" using hi by simp
  ultimately show ?thesis
    by (rule round_double_exact [OF b, of "i * 2 ^ nat (51 - ?e)", rotated])
qed

lemma round_double_int:
  assumes "\<bar>i\<bar> < 2 ^ 52"
  shows "round_double (of_int i) = Fin (of_int i)"
  using round_double_half_int [of "2 * i"] assms by simp

lemma round_double_nat:
  assumes "n < 2 ^ 52"
  shows "round_double (real n) = Fin (real n)"
  using round_double_int [of "int n"] assms by simp

subsection \<open>The literals of the source\<close>

lemma literal_1_05: "float_literal 1.05 = Fin (4728779608739021 / 2 ^ 52)"
  unfolding float_literal_def
  by (subst round_double_eval [of 0]) (simp_all add: pow2_def round_half_even_def Let_def)

lemma literal_0_95: "float_literal 0.95 = Fin (4278419646001971 / 2 ^ 52)"
  unfolding float_literal_def
  by (subst round_double_eval [of "- 1"]) (simp_all add: pow2_def round_half_even_def Let_def)

lemma fl_lt_NaN [simp]: "fl_lt a NaN = False"
  by (cases a) simp_all

subsection \<open>Writing and reading columns\<close>

lemma len_setitem: "len (setitem data name vs) = len data"
  by (simp add: len_def setitem_def)

lemma index_setitem: "index (setitem data name vs) = index data"
  by (simp add: setitem_def)

lemma getitem_setitem:
  "getitem (setitem data name vs) name' = (if name' = name then Inr vs else getitem data name')"
  by (simp add: getitem_def setitem_def update_conv')

lemma setitem_setitem: "setitem (setitem data name vs) name vs = setitem data name vs"
  by (simp add: setitem_def)

lemma predict_price_movement_fst:
  "fst (predict_price_movement lstsq data days) =
     (if len data < 2 then data else setitem data ''Days'' (arange 0 (int (len data))))"
  by (simp add: predict_price_movement_def Let_def)

lemma predict_price_movement_cong:
  assumes "len d1 = len d2" and "getitem d1 ''Close'' = getitem d2 ''Close''"
  shows "snd (predict_price_movement lstsq d1 days) = snd (predict_price_movement lstsq d2 days)"
  using assms
  by (simp add: predict_price_movement_def Let_def getitem_setitem len_setitem
      split: sum.splits)

subsection \<open>The recommendation branch\<close>

lemma recommend_Some:
  "recommend (Some p) (Some c) =
     Inr (if fl_gt p (fl_mul c (float_literal 1.05)) then Success BUY_CALL c p
          else if fl_lt p (fl_mul c (float_literal 0.95)) then Success BUY_PUT c p
          else Info HOLD p)"
  by (simp add: recommend_def)

lemma recommended_Some:
  "recommended (Some p) (Some c) =
     Some (if fl_gt p (fl_mul c (float_literal 1.05)) then BUY_CALL
           else if fl_lt p (fl_mul c (float_literal 0.95)) then BUY_PUT
           else HOLD)"
  by (simp add: recommended_def recommend_Some)

lemma mul_100_1_05: "fl_mul (Fin 100) (float_literal 1.05) = Fin 105"
  unfolding literal_1_05 fl_mul.simps
  by (subst round_double_eval [of 6]) (simp_all add: pow2_def round_half_even_def Let_def)

lemma mul_100_0_95: "fl_mul (Fin 100) (float_literal 0.95) = Fin 95"
  unfolding literal_0_95 fl_mul.simps
  by (subst round_double_eval [of 6]) (simp_all add: pow2_def round_half_even_def Let_def)

lemma mul_neg_100_1_05: "fl_mul (Fin (- 100)) (float_literal 1.05) = Fin (- 105)"
  unfolding literal_1_05 fl_mul.simps
  by (subst round_double_eval [of 6]) (simp_all add: pow2_def round_half_even_def Let_def)

lemma mul_neg_100_0_95: "fl_mul (Fin (- 100)) (float_literal 0.95) = Fin (- 95)"
  unfolding literal_0_95 fl_mul.simps
  by (subst round_double_eval [of 6]) (simp_all add: pow2_def round_half_even_def Let_def)

lemma mul_20_1_05: "fl_mul (Fin 20) (float_literal 1.05) = Fin 21"
  unfolding literal_1_05 fl_mul.simps
  by (subst round_double_eval [of 4]) (simp_all add: pow2_def round_half_even_def Let_def)

lemma mul_2_1_05: "fl_mul (Fin 2) (float_literal 1.05) = Fin (4728779608739021 / 2 ^ 51)"
  unfolding literal_1_05 fl_mul.simps
  by (subst round_double_eval [of 1]) (simp_all add: pow2_def round_half_even_def Let_def)

lemma mul_2_0_95: "fl_mul (Fin 2) (float_literal 0.95) = Fin (4278419646001971 / 2 ^ 51)"
  unfolding literal_0_95 fl_mul.simps
  by (subst round_double_eval [of 0]) (simp_all add: pow2_def round_half_even_def Let_def)

lemma mul_0_1_05: "fl_mul (Fin 0) (float_literal 1.05) = Fin 0"
  unfolding literal_1_05 by simp

lemma mul_0_0_95: "fl_mul (Fin 0) (float_literal 0.95) = Fin 0"
  unfolding literal_0_95 by simp

lemma literal_105: "float_literal 105.0 = Fin 105"
  using round_double_int [of 105] by (simp add: float_literal_def)

lemma literal_95: "float_literal 95.0 = Fin 95"
  using round_double_int [of 95] by (simp add: float_literal_def)

lemma literal_105_0001: "float_literal 105.0001 = Fin (3694362587764569 / 2 ^ 45)"
  unfolding float_literal_def
  by (subst round_double_eval [of 6]) (simp_all add: pow2_def round_half_even_def Let_def)

lemma literal_94_9999: "float_literal 94.9999 = Fin (3342511830001831 / 2 ^ 45)"
  unfolding float_literal_def
  by (subst round_double_eval [of 6]) (simp_all add: pow2_def round_half_even_def Let_def)

lemma literal_2_1: "float_literal 2.1 = Fin (4728779608739021 / 2 ^ 51)"
  unfolding float_literal_def
  by (subst round_double_eval [of 1]) (simp_all add: pow2_def round_half_even_def Let_def)

lemmas literal_values =
  literal_105_0001 literal_94_9999 literal_2_1 literal_105 literal_95

lemmas threshold_values =
  mul_100_1_05 mul_100_0_95 mul_neg_100_1_05 mul_neg_100_0_95 mul_20_1_05 mul_2_1_05
  mul_2_0_95 mul_0_1_05 mul_0_0_95

lemma analyze_options_available:
  assumes "options stock = Inr expiry_dates" and "expiry_dates \<noteq> []"
    and "option_chain stock (selectbox expiry_dates) = Inr (calls, puts)"
  shows "analyze_options selectbox stock predicted_price current_price =
           [Subheader ''Options Recommendations'',
            Selectbox ''Select Expiry Date'' expiry_dates,
            Write ''Call Options'', Dataframe calls,
            Write ''Put Options'', Dataframe puts,
            (case recommend predicted_price current_price of
               Inl e \<Rightarrow> ErrorExc ''Error analyzing options'' e
             | Inr ev \<Rightarrow> ev)]"
  using assms by (simp add: analyze_options_def Let_def split: sum.splits)

subsection \<open>Index ranges and validation\<close>

lemma check_array_Fin: "check_array (map Fin rs) = Inr rs"
  by (induction rs) simp_all

lemma check_array_error: "check_array vs = Inl e \<Longrightarrow> e = ValueError"
proof (induction vs arbitrary: e)
  case Nil
  then show ?case by simp
next
  case (Cons v vs)
  then show ?case by (cases v) (auto split: sum.splits)
qed

lemma upto_as_upt: "[0..int n - 1] = map int [0..<n]"
proof (induction n)
  case 0
  show ?case by simp
next
  case (Suc n)
  have "[0..int (Suc n) - 1] = [0..int n - 1] @ [int n]"
    using upto_rec2 [of 0 "int n"] by simp
  with Suc show ?case by simp
qed

lemma arange_0: "arange 0 (int n) = map Fin (map real [0..<n])"
  by (simp add: arange_def upto_as_upt)

lemma arange_future:
  assumes "1 \<le> days"
  shows "\<exists>rs. arange a (a + days) = map Fin rs \<and> rs \<noteq> [] \<and> last rs = of_int (a + days - 1)"
proof -
  have ne: "[a..a + days - 1] \<noteq> []" using assms by simp
  have "[a..a + days - 1] = [a..a + days - 1 - 1] @ [a + days - 1]"
    using assms by (intro upto_rec2) simp
  then have l: "last [a..a + days - 1] = a + days - 1"
    by (metis last_snoc)
  have "arange a (a + days) = map Fin (map of_int [a..a + days - 1])"
    by (simp add: arange_def)
  moreover have "last (map real_of_int [a..a + days - 1]) = of_int (a + days - 1)"
    using ne l by (simp add: last_map)
  ultimately show ?thesis using ne by blast
qed

subsection \<open>Sums and means that are exact\<close>

lemma foldl_add_nat:
  assumes "s + sum_list ks < 2 ^ 52"
  shows "foldl fl_add (Fin (real s)) (map Fin (map real ks)) = Fin (real (s + sum_list ks))"
  using assms
proof (induction ks arbitrary: s)
  case Nil
  then show ?case by simp
next
  case (Cons k ks)
  have "s + k < 2 ^ 52" using Cons.prems by simp
  then have "round_double (real (s + k)) = Fin (real (s + k))" by (rule round_double_nat)
  then have "fl_add (Fin (real s)) (Fin (real k)) = Fin (real (s + k))" by simp
  moreover have "(s + k) + sum_list ks < 2 ^ 52" using Cons.prems by simp
  ultimately show ?case using Cons.IH [of "s + k"] by (simp add: add.assoc)
qed

lemma two_sum_upt: "2 * sum_list [0..<n] = n * (n - 1)"
  by (induction n) (simp_all add: algebra_simps)

lemma rows_bound:
  assumes "n \<le> 2 ^ 26"
  shows "n * (n - 1) < (2::nat) ^ 52"
proof (cases "n = 0")
  case True
  then show ?thesis by simp
next
  case False
  have "n * (n - 1) < n * n" using False by simp
  also have "n * n \<le> 2 ^ 26 * 2 ^ 26" using assms mult_le_mono by blast
  also have "(2::nat) ^ 26 * 2 ^ 26 = 2 ^ 52" by (simp add: power_add [symmetric])
  finally show ?thesis .
qed

lemma np_sum_upt:
  assumes "n \<le> 2 ^ 26"
  shows "np_sum (map real [0..<n]) = Fin (real (sum_list [0..<n]))"
proof -
  have "sum_list [0..<n] < 2 ^ 52"
    using two_sum_upt [of n] rows_bound [OF assms] by linarith
  then show ?thesis
    using foldl_add_nat [of 0 "[0..<n]"] by (simp add: np_sum_def)
qed

lemma np_mean_upt:
  assumes "0 < n" and "n \<le> 2 ^ 26"
  shows "np_mean (map real [0..<n]) = Fin ((real n - 1) / 2)"
proof -
  have "real (2 * sum_list [0..<n]) = real (n * (n - 1))" by (simp only: two_sum_upt)
  then have "2 * real (sum_list [0..<n]) = real n * (real n - 1)"
    using assms(1) by (simp add: of_nat_diff)
  then have q: "real (sum_list [0..<n]) / real n = (real n - 1) / 2"
    using assms(1) by (simp add: field_simps)
  have "\<bar>int n - 1\<bar> < 2 ^ 53"
  proof -
    have "int n \<le> 2 ^ 26" using assms(2) by (metis of_nat_le_iff of_nat_numeral of_nat_power)
    then show ?thesis using assms(1) by simp
  qed
  then have "round_double (real_of_int (int n - 1) / 2) = Fin (real_of_int (int n - 1) / 2)"
    by (rule round_double_half_int)
  moreover have "real_of_int (int n - 1) / 2 = (real n - 1) / 2" by simp
  ultimately have r: "round_double ((real n - 1) / 2) = Fin ((real n - 1) / 2)"
    by (simp only:)
  show ?thesis
    by (simp only: np_mean_def np_sum_upt [OF assms(2)] pyfloat.case length_map length_upt
        diff_zero q r)
qed

lemma centred_index:
  assumes "i < n" and "n \<le> 2 ^ 26"
  shows "fl_sub (Fin (real i)) (Fin ((real n - 1) / 2)) = Fin (real i - (real n - 1) / 2)"
proof -
  have b: "int n \<le> 2 ^ 26" using assms(2) by (metis of_nat_le_iff of_nat_numeral of_nat_power)
  have "\<bar>2 * int i - int n + 1\<bar> < 2 ^ 53" using assms(1) b by simp
  then have "round_double (real_of_int (2 * int i - int n + 1) / 2)
      = Fin (real_of_int (2 * int i - int n + 1) / 2)"
    by (rule round_double_half_int)
  moreover have "real_of_int (2 * int i - int n + 1) / 2 = real i - (real n - 1) / 2"
    by (simp add: field_simps)
  ultimately have "round_double (real i - (real n - 1) / 2) = Fin (real i - (real n - 1) / 2)"
    by (simp only:)
  then show ?thesis by (simp only: fl_sub.simps)
qed

lemma centred_indices:
  assumes "n \<le> 2 ^ 26"
  shows "map (\<lambda>x. fl_sub (Fin x) (Fin ((real n - 1) / 2))) (map real [0..<n])
           = map Fin (map (\<lambda>i. real i - (real n - 1) / 2) [0..<n])"
  using centred_index [OF _ assms] by simp

lemma centred_indices_rounded:
  assumes "n \<le> 2 ^ 26"
  shows "map (\<lambda>x. round_double (x - (real n - 1) / 2)) (map real [0..<n])
           = map Fin (map (\<lambda>i. real i - (real n - 1) / 2) [0..<n])"
  using centred_indices [OF assms] by simp

lemma foldl_add_replicate:
  assumes "\<forall>k\<in>{1..j + m}. round_double (real k * c) = Fin (real k * c)"
  shows "foldl fl_add (Fin (real j * c)) (map Fin (replicate m c)) = Fin (real (j + m) * c)"
  using assms
proof (induction m arbitrary: j)
  case 0
  then show ?case by simp
next
  case (Suc m)
  have "Suc j \<in> {1..j + Suc m}" by simp
  with Suc.prems have "round_double (real (Suc j) * c) = Fin (real (Suc j) * c)" by blast
  moreover have "real j * c + c = real (Suc j) * c" by (simp add: algebra_simps)
  ultimately have "fl_add (Fin (real j * c)) (Fin c) = Fin (real (Suc j) * c)" by simp
  moreover have "\<forall>k\<in>{1..Suc j + m}. round_double (real k * c) = Fin (real k * c)"
    using Suc.prems by simp
  ultimately show ?case using Suc.IH [of "Suc j"] by simp
qed

lemma np_mean_replicate:
  assumes "0 < n" and "\<forall>k\<in>{1..n}. round_double (real k * c) = Fin (real k * c)"
  shows "np_mean (replicate n c) = Fin c"
proof -
  have "np_sum (replicate n c) = Fin (real n * c)"
    using foldl_add_replicate [of 0 n c] assms(2) by (simp add: np_sum_def)
  moreover have "1 \<in> {1..n}" using assms(1) by simp
  then have "round_double (real 1 * c) = Fin (real 1 * c)" using assms(2) by blast
  ultimately show ?thesis using assms(1) by (simp add: np_mean_def)
qed

lemma fit_constant:
  assumes n: "0 < n" "n \<le> 2 ^ 26"
    and repr: "\<forall>k\<in>{1..n}. round_double (real k * c) = Fin (real k * c)"
    and solver: "lstsq (map (\<lambda>i. real i - (real n - 1) / 2) [0..<n]) (replicate n 0) = Fin 0"
  shows "fit lstsq (arange 0 (int n)) (replicate n (Fin c)) = Inr \<lparr>coef = Fin 0, intercept = Fin c\<rparr>"
proof -
  have c: "round_double c = Fin c"
    using repr n(1) by (metis One_nat_def Suc_leI atLeastAtMost_iff le_refl mult_1 of_nat_1)
  have y: "replicate n (Fin c) = map Fin (replicate n c)" by simp
  have yc: "map (\<lambda>y. round_double (y - c)) (replicate n c) = map Fin (replicate n 0)"
    by simp
  have ne: "map real [0..<n] \<noteq> []" using n(1) by simp
  show ?thesis
    unfolding arange_0 y fit_def check_array_Fin
    using ne
    by (simp add: Let_def np_mean_upt [OF n] np_mean_replicate [OF n(1) repr]
        centred_indices_rounded [OF n(2)] yc check_array_Fin solver c
        del: map_map map_replicate)
qed

subsection \<open>Predictions\<close>

lemma predict_last:
  assumes "1 \<le> days"
  shows "\<exists>ps. predict model (arange a (a + days)) = Inr ps \<and> ps \<noteq> [] \<and>
           last ps = fl_add (fl_mul (Fin (real_of_int (a + days - 1))) (coef model))
                       (intercept model)"
proof -
  obtain rs where rs: "arange a (a + days) = map Fin rs" "rs \<noteq> []"
      "last rs = of_int (a + days - 1)"
    using arange_future [OF assms] by blast
  let ?f = "\<lambda>x. fl_add (fl_mul (Fin x) (coef model)) (intercept model)"
  have "predict model (arange a (a + days)) = Inr (map ?f rs)"
    using rs(2) by (simp add: predict_def rs(1) check_array_Fin)
  moreover have "last (map ?f rs) = ?f (last rs)" using rs(2) by (simp add: last_map)
  ultimately show ?thesis using rs(2,3) by simp
qed

lemma fit_error: "fit lstsq X y = Inl e \<Longrightarrow> e = ValueError"
  by (auto simp add: fit_def Let_def split: sum.splits if_splits dest: check_array_error)

lemma predict_price_movement_result:
  assumes "2 \<le> len data" and "1 \<le> days" and "getitem data ''Close'' = Inr y" and "y \<noteq> []"
  shows "(fit lstsq (arange 0 (int (len data))) y = Inl ValueError \<and>
          snd (predict_price_movement lstsq data days) = Inl ValueError) \<or>
         (\<exists>model. fit lstsq (arange 0 (int (len data))) y = Inr model \<and>
            snd (predict_price_movement lstsq data days) =
              Inr (Some (last y),
                   Some (fl_add (fl_mul (Fin (real_of_int (int (len data) + days - 1)))
                                   (coef model)) (intercept model))))"
proof (cases "fit lstsq (arange 0 (int (len data))) y")
  case (Inl e)
  then have "e = ValueError" by (rule fit_error)
  with Inl show ?thesis
    using assms by (simp add: predict_price_movement_def Let_def getitem_setitem)
next
  case (Inr model)
  obtain ps where ps: "predict model (arange (int (len data)) (int (len data) + days)) = Inr ps"
      "last ps = fl_add (fl_mul (Fin (real_of_int (int (len data) + days - 1))) (coef model))
                   (intercept model)"
    using predict_last [OF assms(2)] by blast
  show ?thesis
    using assms Inr ps
    by (simp add: predict_price_movement_def Let_def getitem_setitem len_setitem)
qed

subsection \<open>Sums that overflow\<close>

lemma round_double_2_1023: "round_double (2 ^ 1023) = Fin (2 ^ 1023)"
  by (rule round_double_exact [of 1023 _ "2 ^ 52"]) (simp_all add: pow2_def)

lemma round_double_2_1024: "round_double (2 ^ 1023 + 2 ^ 1023) = PInf"
  by (subst round_double_eval [of 1024]) (simp_all add: pow2_def round_half_even_def Let_def)


lemma np_sum_two: "np_sum [u, v] = fl_add (round_double (0 + u)) (Fin v)"
  unfolding np_sum_def by (simp only: list.map foldl.simps fl_add.simps)

lemma np_mean_overflow_constant: "np_mean [2 ^ 1023, 2 ^ 1023] = PInf"
  unfolding np_mean_def np_sum_two
  by (simp only: add_0 round_double_2_1023 fl_add.simps round_double_2_1024 pyfloat.case)


lemma np_mean_two_rows: "np_mean [0, 1] = Fin (1 / 2)"
  using np_mean_upt [of 2] by (simp add: upt_conv_Cons)

lemma fit_overflow:
  assumes "np_mean [u, v] = PInf"
  shows "fit lstsq [Fin 0, Fin 1] [Fin u, Fin v] = Inl ValueError"
proof -
  have "round_double (real_of_int (- 1) / 2) = Fin (real_of_int (- 1) / 2)"
    "round_double (real_of_int 1 / 2) = Fin (real_of_int 1 / 2)"
    by (rule round_double_half_int, simp)+
  then have h: "round_double (- (1 / 2)) = Fin (- (1 / 2))" "round_double (1 / 2) = Fin (1 / 2)"
    by simp_all
  show ?thesis
    by (simp add: fit_def Let_def np_mean_two_rows assms h)
qed

lemma predict_price_movement_overflow:
  assumes "np_mean [u, v] = PInf"
  shows "snd (predict_price_movement lstsq
                \<lparr>index = [0, 1], columns = [(''Close'', [Fin u, Fin v])]\<rparr> days)
           = Inl ValueError"
  using fit_overflow [OF assms, of lstsq]
  by (simp add: predict_price_movement_def Let_def len_def getitem_def setitem_def arange_def
      upto_rec1)

lemma rounded_lstsq_zero: "rounded_lstsq xc (replicate n 0) = Fin 0"
proof -
  have "sum_list (map2 (\<lambda>x y. x * y) xc (replicate n 0)) = 0"
    by (induction xc arbitrary: n) (simp, case_tac n, simp_all)
  then show ?thesis by (simp add: rounded_lstsq_def Let_def)
qed

subsection \<open>The least-squares line of a series that lies on a line\<close>






section \<open>Trend extrapolation: the claims\<close>




text \<open>
  A constant series can make the call fail. Two closes \<open>2^1023\<close> are doubles, but
  their sum overflows, the mean of the targets is infinite, and the fit rejects the centred
  targets with ValueError.
\<close>

theorem extrapolate_constant_series_counterexample:
  "snd (predict_price_movement rounded_lstsq
          \<lparr>index = [0, 1], columns = [(''Close'', [Fin (2 ^ 1023), Fin (2 ^ 1023)])]\<rparr> 7)
     = Inl ValueError"
  by (rule predict_price_movement_overflow [OF np_mean_overflow_constant])

text \<open>
  Claim C9, as the code has it. For a table of \<open>n\<close> rows, \<open>2 \<le> n \<le> 2^26\<close>,
  whose closes are all the same price \<open>c\<close>, and a horizon \<open>days \<ge> 1\<close>: when
  every multiple \<open>k * c\<close> for \<open>1 \<le> k \<le> n\<close> is a double (so that the sum of the
  closes is exact in whatever order it is taken) and the solver returns the slope 0 for
  targets that are all 0, the fit is the model of slope 0 and intercept \<open>c\<close>, no
  exception is raised, and both prices returned are \<open>c\<close>.
\<close>

theorem extrapolate_constant_series:
  assumes "2 \<le> len data" and "len data \<le> 2 ^ 26" and "1 \<le> days"
    and "getitem data ''Close'' = Inr (replicate (len data) (Fin c))"
    and "\<forall>k\<in>{1..len data}. round_double (real k * c) = Fin (real k * c)"
    and "lstsq (map (\<lambda>i. real i - (real (len data) - 1) / 2) [0..<len data])
           (replicate (len data) 0) = Fin 0"
  shows "fit lstsq (arange 0 (int (len data))) (replicate (len data) (Fin c))
           = Inr \<lparr>coef = Fin 0, intercept = Fin c\<rparr> \<and>
         snd (predict_price_movement lstsq data days) = Inr (Some (Fin c), Some (Fin c))"
proof -
  let ?n = "len data"
  have n: "0 < ?n" using assms(1) by simp
  have c: "round_double c = Fin c"
    using assms(5) n by (metis One_nat_def Suc_leI atLeastAtMost_iff le_refl mult_1 of_nat_1)
  have f: "fit lstsq (arange 0 (int ?n)) (replicate ?n (Fin c))
             = Inr \<lparr>coef = Fin 0, intercept = Fin c\<rparr>"
    using n assms(2) assms(5) assms(6) by (rule fit_constant)
  have ne: "replicate ?n (Fin c) \<noteq> []" using n by simp
  from predict_price_movement_result [OF assms(1,3,4) ne, of lstsq]
  have "snd (predict_price_movement lstsq data days) =
          Inr (Some (last (replicate ?n (Fin c))),
               Some (fl_add (fl_mul (Fin (real_of_int (int ?n + days - 1))) (Fin 0)) (Fin c)))"
    by (simp add: f)
  then have "snd (predict_price_movement lstsq data days) = Inr (Some (Fin c), Some (Fin c))"
    using n by (simp add: c)
  with f show ?thesis by simp
qed

theorem extrapolate_constant_series_witness:
  "snd (predict_price_movement rounded_lstsq
          \<lparr>index = [0, 1, 2, 3], columns = [(''Close'', [Fin 50, Fin 50, Fin 50, Fin 50])]\<rparr> 7)
     = Inr (Some (Fin 50), Some (Fin 50))"
proof -
  let ?d = "\<lparr>index = [0, 1, 2, 3], columns = [(''Close'', [Fin 50, Fin 50, Fin 50, Fin 50])]\<rparr>"
  have l: "len ?d = 4" by (simp add: len_def)
  have r: "\<forall>k\<in>{1..len ?d}. round_double (real k * 50) = Fin (real k * 50)"
  proof
    fix k assume "k \<in> {1..len ?d}"
    then have "k \<le> 4" by (simp only: l atLeastAtMost_iff)
    then have "k * 50 < 2 ^ 52" by simp
    then have "round_double (real (k * 50)) = Fin (real (k * 50))" by (rule round_double_nat)
    then show "round_double (real k * 50) = Fin (real k * 50)" by simp
  qed
  have "replicate 4 (Fin 50) = [Fin 50, Fin 50, Fin 50, Fin 50]"
    by (simp add: numeral_eq_Suc)
  then have g: "getitem ?d ''Close'' = Inr (replicate (len ?d) (Fin 50))"
    unfolding l by (simp add: getitem_def)
  show ?thesis
    using extrapolate_constant_series [of ?d 7 50 rounded_lstsq, OF _ _ _ g r rounded_lstsq_zero]
    by (simp add: len_def)
qed

text \<open>
  Claim C6. For a table of 0 or 1 rows and every horizon, \<open>predict_price_movement\<close>
  returns the pair \<open>(None, None)\<close> and leaves the table as it was; and this pair is
  returned for no table of two or more rows, so that it cannot be taken for a projection.
\<close>

theorem extrapolate_insufficient_data:
  "(len data < 2 \<longrightarrow> predict_price_movement lstsq data days = (data, Inr (None, None))) \<and>
   (snd (predict_price_movement lstsq data days) = Inr (None, None) \<longrightarrow> len data < 2)"
  by (auto simp add: predict_price_movement_def Let_def split: sum.splits if_splits)

theorem extrapolate_insufficient_data_witness:
  "len \<lparr>index = [0], columns = [(''Close'', [Fin 10])]\<rparr> < 2 \<and>
   predict_price_movement rounded_lstsq \<lparr>index = [0], columns = [(''Close'', [Fin 10])]\<rparr> 7
     = (\<lparr>index = [0], columns = [(''Close'', [Fin 10])]\<rparr>, Inr (None, None))"
  using extrapolate_insufficient_data
    [of "\<lparr>index = [0], columns = [(''Close'', [Fin 10])]\<rparr>" rounded_lstsq 7]
  by (simp add: len_def)

text \<open>
  The table after a call is not always the table before it: with two rows or more, line 42
  writes the column \<open>Days\<close> into the table it was given.
\<close>

theorem extrapolate_frame_counterexample:
  "fst (predict_price_movement rounded_lstsq
          \<lparr>index = [0, 1], columns = [(''Close'', [Fin 1, Fin 2])]\<rparr> 7)
     \<noteq> \<lparr>index = [0, 1], columns = [(''Close'', [Fin 1, Fin 2])]\<rparr>"
  by (simp add: predict_price_movement_fst len_def setitem_def)

text \<open>
  Claim C7, as the code has it. A call of \<open>predict_price_movement\<close> keeps the rows
  of the table and every column other than \<open>Days\<close>; a table of fewer than two rows is
  left unchanged altogether, and in a table of \<open>n \<ge> 2\<close> rows the column
  \<open>Days\<close> holds \<open>0..n-1\<close> afterwards.
\<close>

theorem extrapolate_frame_effect:
  "index (fst (predict_price_movement lstsq data days)) = index data \<and>
   (\<forall>name. name \<noteq> ''Days'' \<longrightarrow>
      getitem (fst (predict_price_movement lstsq data days)) name = getitem data name) \<and>
   (len data < 2 \<longrightarrow> fst (predict_price_movement lstsq data days) = data) \<and>
   (2 \<le> len data \<longrightarrow>
      getitem (fst (predict_price_movement lstsq data days)) ''Days''
        = Inr (arange 0 (int (len data))))"
  by (simp add: predict_price_movement_fst index_setitem getitem_setitem)

theorem extrapolate_frame_effect_witness:
  "getitem (fst (predict_price_movement rounded_lstsq
       \<lparr>index = [0, 1], columns = [(''Close'', [Fin 1, Fin 2])]\<rparr> 7)) ''Close''
     = Inr [Fin 1, Fin 2] \<and>
   getitem (fst (predict_price_movement rounded_lstsq
       \<lparr>index = [0, 1], columns = [(''Close'', [Fin 1, Fin 2])]\<rparr> 7)) ''Days''
     = Inr [Fin 0, Fin 1] \<and>
   fst (predict_price_movement rounded_lstsq
       \<lparr>index = [0], columns = [(''Close'', [Fin 1])]\<rparr> 7)
     = \<lparr>index = [0], columns = [(''Close'', [Fin 1])]\<rparr>"
  using extrapolate_frame_effect
      [of rounded_lstsq "\<lparr>index = [0, 1], columns = [(''Close'', [Fin 1, Fin 2])]\<rparr>" 7]
    extrapolate_frame_effect
      [of rounded_lstsq "\<lparr>index = [0], columns = [(''Close'', [Fin 1])]\<rparr>" 7]
  by (simp add: len_def getitem_def arange_def upto_rec1)

text \<open>
  Claim C8. Two calls of \<open>predict_price_movement\<close> on the same series and horizon
  return the same pair. The second call of the program receives the table the first one
  has written to; it leaves that table as it is and returns the same result. More
  generally the result depends on the number of rows and on the column \<open>Close\<close>
  only.
\<close>

theorem extrapolate_deterministic:
  "predict_price_movement lstsq (fst (predict_price_movement lstsq data days)) days
     = predict_price_movement lstsq data days \<and>
   (len d2 = len data \<and> getitem d2 ''Close'' = getitem data ''Close'' \<longrightarrow>
      snd (predict_price_movement lstsq d2 days) = snd (predict_price_movement lstsq data days))"
proof -
  let ?d' = "fst (predict_price_movement lstsq data days)"
  have l: "len ?d' = len data"
    by (simp add: predict_price_movement_fst len_setitem)
  have c: "getitem ?d' ''Close'' = getitem data ''Close''"
    by (simp add: predict_price_movement_fst getitem_setitem)
  have "fst (predict_price_movement lstsq ?d' days) = ?d'"
    unfolding predict_price_movement_fst [of lstsq ?d'] l
    by (simp add: predict_price_movement_fst setitem_setitem)
  moreover have "snd (predict_price_movement lstsq ?d' days)
      = snd (predict_price_movement lstsq data days)"
    by (rule predict_price_movement_cong [OF l c])
  ultimately have "predict_price_movement lstsq ?d' days = predict_price_movement lstsq data days"
    by (simp add: prod_eq_iff)
  then show ?thesis
    by (auto intro: predict_price_movement_cong)
qed

theorem extrapolate_deterministic_witness:
  "predict_price_movement rounded_lstsq
     \<lparr>index = [0, 1], columns = [(''Close'', [Fin 1, Fin 2]), (''Days'', [Fin 0, Fin 1])]\<rparr> 7
   = (\<lparr>index = [0, 1], columns = [(''Close'', [Fin 1, Fin 2]), (''Days'', [Fin 0, Fin 1])]\<rparr>,
      snd (predict_price_movement rounded_lstsq
             \<lparr>index = [0, 1], columns = [(''Close'', [Fin 1, Fin 2])]\<rparr> 7))"
  using extrapolate_deterministic
    [of rounded_lstsq "\<lparr>index = [0, 1], columns = [(''Close'', [Fin 1, Fin 2])]\<rparr>" 7
        "\<lparr>index = [0, 1], columns = [(''Close'', [Fin 1, Fin 2]), (''Days'', [Fin 0, Fin 1])]\<rparr>"]
  by (simp add: predict_price_movement_fst len_def setitem_def getitem_def arange_def
      upto_rec1 prod_eq_iff)

section \<open>Recommendation: the claims\<close>

text \<open>
  With a negative current price both comparisons can hold at once, and the first branch
  wins: at current and projected price -100 the projected price is below
  \<open>current * 0.95 = -95\<close>, yet the recommendation is not BUY_PUT.
\<close>

theorem classifier_thresholds_counterexample:
  "\<not> (recommended (Some (Fin (- 100))) (Some (Fin (- 100))) = Some BUY_PUT
        \<longleftrightarrow> fl_lt (Fin (- 100)) (fl_mul (Fin (- 100)) (float_literal 0.95)))"
  unfolding recommended_Some threshold_values fl_gt_def by simp

text \<open>
  Claim C2, as the code has it. For finite prices the recommendation is BUY_CALL exactly
  when \<open>projected > current * 1.05\<close>, and BUY_PUT exactly when
  \<open>projected < current * 0.95\<close> and not \<open>projected > current * 1.05\<close>, where the
  products are double products with the doubles of the literals. Both comparisons are
  strict: at current price 100 the products are the doubles 105 and 95, and the projected
  prices 105.0001, 105.0, 94.9999 and 95.0 give BUY_CALL, HOLD, BUY_PUT and HOLD.
\<close>

theorem classifier_thresholds:
  "(recommended (Some (Fin p)) (Some (Fin c)) = Some BUY_CALL
      \<longleftrightarrow> fl_gt (Fin p) (fl_mul (Fin c) (float_literal 1.05))) \<and>
   (recommended (Some (Fin p)) (Some (Fin c)) = Some BUY_PUT
      \<longleftrightarrow> fl_lt (Fin p) (fl_mul (Fin c) (float_literal 0.95)) \<and>
          \<not> fl_gt (Fin p) (fl_mul (Fin c) (float_literal 1.05))) \<and>
   fl_mul (Fin 100) (float_literal 1.05) = Fin 105 \<and>
   fl_mul (Fin 100) (float_literal 0.95) = Fin 95 \<and>
   recommended (Some (float_literal 105.0001)) (Some (Fin 100)) = Some BUY_CALL \<and>
   recommended (Some (float_literal 105.0)) (Some (Fin 100)) = Some HOLD \<and>
   recommended (Some (float_literal 94.9999)) (Some (Fin 100)) = Some BUY_PUT \<and>
   recommended (Some (float_literal 95.0)) (Some (Fin 100)) = Some HOLD"
  unfolding recommended_Some literal_values threshold_values fl_gt_def by simp

theorem classifier_thresholds_witness:
  "recommended (Some (float_literal 2.1)) (Some (Fin 2)) = Some HOLD \<and>
   \<not> fl_gt (float_literal 2.1) (fl_mul (Fin 2) (float_literal 1.05))"
  using classifier_thresholds [of "4728779608739021 / 2 ^ 51" 2]
  unfolding recommended_Some literal_values threshold_values fl_gt_def by simp

text \<open>
  Claim C10. For every pair of finite prices, zero and negative ones included, the branch
  raises nothing and yields exactly one category, and that category is HOLD exactly when
  neither strict comparison of the code holds.
\<close>

theorem classifier_total:
  "(\<exists>ev. recommend (Some (Fin p)) (Some (Fin c)) = Inr ev) \<and>
   (\<exists>!cat. recommended (Some (Fin p)) (Some (Fin c)) = Some cat) \<and>
   (recommended (Some (Fin p)) (Some (Fin c)) = Some HOLD
      \<longleftrightarrow> \<not> fl_gt (Fin p) (fl_mul (Fin c) (float_literal 1.05)) \<and>
          \<not> fl_lt (Fin p) (fl_mul (Fin c) (float_literal 0.95)))"
  by (simp add: recommended_Some recommend_Some)

theorem classifier_total_witness:
  "recommended (Some (Fin (- 3))) (Some (Fin 0)) = Some BUY_PUT \<and>
   recommended (Some (Fin (- 100))) (Some (Fin (- 100))) = Some BUY_CALL \<and>
   recommended (Some (Fin 0)) (Some (Fin 0)) = Some HOLD"
  using classifier_total [of "- 3" 0] classifier_total [of "- 100" "- 100"]
    classifier_total [of 0 0]
  unfolding recommended_Some threshold_values fl_gt_def by simp

text \<open>
  A price that is not finite does not make the branch fail: every comparison with NaN is
  false, so a NaN projected price falls through to HOLD.
\<close>

theorem classifier_nonfinite_counterexample:
  "recommend (Some NaN) (Some (Fin 100)) = Inr (Info HOLD NaN)"
  by (simp add: recommend_Some fl_gt_def)

text \<open>
  Claim C5, as the code has it. When the current or the projected price is NaN or
  infinite, the branch raises nothing and still yields a category; it is HOLD whenever one
  of the two prices is NaN.
\<close>

theorem classifier_nonfinite:
  "\<not> isfinite p \<or> \<not> isfinite c \<Longrightarrow>
   (\<exists>ev. recommend (Some p) (Some c) = Inr ev) \<and>
   (\<exists>cat. recommended (Some p) (Some c) = Some cat) \<and>
   (p = NaN \<or> c = NaN \<longrightarrow> recommended (Some p) (Some c) = Some HOLD)"
  by (auto simp add: recommended_Some recommend_Some fl_gt_def)

theorem classifier_nonfinite_witness:
  "\<not> isfinite PInf \<and> recommended (Some PInf) (Some NaN) = Some HOLD"
  using classifier_nonfinite [of PInf NaN] by simp

text \<open>
  Without expiry dates \<open>analyze_options\<close> returns at line 70, before the
  recommendation branch: nothing on the page carries a category, although the two prices
  would give BUY_CALL.
\<close>

theorem analyze_options_unavailable_counterexample:
  "map category_of
     (analyze_options hd \<lparr>options = Inr [], option_chain = Inl \<circ> UpstreamError\<rparr>
        (Some (Fin 34)) (Some (Fin 20))) = [None, None] \<and>
   recommended (Some (Fin 34)) (Some (Fin 20)) = Some BUY_CALL"
  unfolding recommended_Some threshold_values fl_gt_def by (simp add: analyze_options_def)

text \<open>
  Claim C4, as the code has it. For an instrument without options data
  \<open>analyze_options\<close> shows the message that no options data is available and nothing
  else: no options table and no recommendation. When the expiry dates and the chain of the
  chosen expiry are available, the last thing shown is the recommendation of the two
  prices (or the exception of the branch), whatever the chain holds.
\<close>

theorem analyze_options_unavailable:
  "(options stock = Inr [] \<longrightarrow>
      analyze_options selectbox stock predicted_price current_price =
        [Subheader ''Options Recommendations'',
         Error ''No options data available for this stock.'']) \<and>
   (options stock = Inr expiry_dates \<and> expiry_dates \<noteq> [] \<and>
    option_chain stock (selectbox expiry_dates) = Inr (calls, puts) \<longrightarrow>
      last (analyze_options selectbox stock predicted_price current_price) =
        (case recommend predicted_price current_price of
           Inl e \<Rightarrow> ErrorExc ''Error analyzing options'' e
         | Inr ev \<Rightarrow> ev))"
  by (auto simp add: analyze_options_available) (simp add: analyze_options_def)

theorem analyze_options_unavailable_witness:
  "analyze_options hd \<lparr>options = Inr [], option_chain = Inl \<circ> UpstreamError\<rparr>
     (Some (Fin 34)) (Some (Fin 20)) =
     [Subheader ''Options Recommendations'',
      Error ''No options data available for this stock.''] \<and>
   last (analyze_options hd
     \<lparr>options = Inr [''2024-01-19''],
      option_chain = (\<lambda>expiry. Inr (\<lparr>index = [], columns = []\<rparr>, \<lparr>index = [], columns = []\<rparr>))\<rparr>
     (Some (Fin 34)) (Some (Fin 20))) = Success BUY_CALL (Fin 20) (Fin 34)"
  using analyze_options_unavailable
      [of "\<lparr>options = Inr [], option_chain = Inl \<circ> UpstreamError\<rparr>"
          hd "Some (Fin 34)" "Some (Fin 20)"]
    analyze_options_unavailable
      [of "\<lparr>options = Inr [''2024-01-19''],
            option_chain = (\<lambda>expiry. Inr (\<lparr>index = [], columns = []\<rparr>, \<lparr>index = [], columns = []\<rparr>))\<rparr>"
          hd "Some (Fin 34)" "Some (Fin 20)" "[''2024-01-19'']"
          "\<lparr>index = [], columns = []\<rparr>" "\<lparr>index = [], columns = []\<rparr>"]
  unfolding recommend_Some threshold_values fl_gt_def by simp

end
